theory Spec2Isabelle
  imports Main "HOL-Library.Sublist"
begin

section \<open>Go values used by pkg/client/client.go\<close>

text \<open>
  A Go \<open>string\<close> is a sequence of bytes: \<^typ>\<open>string\<close>. A \<open>[]byte\<close> can be
  \<open>nil\<close>: \<open>None\<close> is the nil slice, \<open>Some b\<close> a slice holding the bytes \<open>b\<close>
  (\<open>[]byte{}\<close> is \<open>Some []\<close>). An \<open>error\<close> is carried by its message; the nil
  error is \<open>None\<close> of \<open>error option\<close>. A \<open>map[string]string\<close> can be nil as
  well: \<open>None\<close> is the nil map.
\<close>

datatype error = Error string

type_synonym bytes = "string option"

type_synonym selector = "(string \<rightharpoonup> string) option"

definition string_of :: "bytes \<Rightarrow> string" where
  \<comment> \<open>the conversion \<open>string(body)\<close>\<close>
  "string_of b = (case b of None \<Rightarrow> [] | Some s \<Rightarrow> s)"

definition len :: "selector \<Rightarrow> nat" where
  \<comment> \<open>\<open>len(selector)\<close>: a nil map has length 0\<close>
  "len sel = (case sel of None \<Rightarrow> 0 | Some m \<Rightarrow> card (dom m))"

definition entries :: "selector \<Rightarrow> (string \<rightharpoonup> string)" where
  \<comment> \<open>what a lookup in the map reads; a nil map reads as empty\<close>
  "entries sel = (case sel of None \<Rightarrow> Map.empty | Some m \<Rightarrow> m)"

definition ranges :: "(string \<times> string) list \<Rightarrow> selector \<Rightarrow> bool" where
  \<comment> \<open>\<open>kvs\<close> is one order in which \<open>for key, value := range selector\<close> can visit
      the map: every entry once, in any order\<close>
  "ranges kvs sel = (distinct (map fst kvs) \<and> map_of kvs = entries sel)"

subsection \<open>Standard library: strings, fmt, net/url\<close>

fun strings_Split :: "char \<Rightarrow> string \<Rightarrow> string list" where
  \<comment> \<open>\<open>strings.Split(s, sep)\<close> for a separator of one byte: all substrings of \<open>s\<close>
      between separators; \<open>[s]\<close> when \<open>sep\<close> does not occur\<close>
  "strings_Split sep [] = [[]]"
| "strings_Split sep (c # s) =
     (let r = strings_Split sep s
      in if c = sep then [] # r else (c # hd r) # tl r)"

fun strings_Join :: "string list \<Rightarrow> string \<Rightarrow> string" where
  \<comment> \<open>\<open>strings.Join(parts, sep)\<close>\<close>
  "strings_Join [] sep = []"
| "strings_Join [p] sep = p"
| "strings_Join (p # q # ps) sep = p @ sep @ strings_Join (q # ps) sep"

definition digit :: "nat \<Rightarrow> char" where
  "digit n = ''0123456789'' ! n"

fun fmt_nat :: "nat \<Rightarrow> string" where
  "fmt_nat n = (if n < 10 then [digit n] else fmt_nat (n div 10) @ [digit (n mod 10)])"

declare fmt_nat.simps [simp del]

definition fmt_d :: "int \<Rightarrow> string" where
  \<comment> \<open>the verb \<open>%d\<close> of package fmt on an \<open>int\<close>\<close>
  "fmt_d i = (if i < 0 then CHR ''-'' # fmt_nat (nat (- i)) else fmt_nat (nat i))"

definition shouldEscape :: "char \<Rightarrow> bool" where
  \<comment> \<open>net/url, mode \<open>encodeQueryComponent\<close>: letters, digits and \<open>- _ . ~\<close> are kept\<close>
  "shouldEscape c =
     (let n = (of_char c :: nat)
      in \<not> ((97 \<le> n \<and> n \<le> 122) \<or> (65 \<le> n \<and> n \<le> 90) \<or> (48 \<le> n \<and> n \<le> 57)
             \<or> c = CHR ''-'' \<or> c = CHR ''_'' \<or> c = CHR ''.'' \<or> c = CHR ''~''))"

definition upperhex :: "nat \<Rightarrow> char" where
  "upperhex n = ''0123456789ABCDEF'' ! n"

fun url_QueryEscape :: "string \<Rightarrow> string" where
  \<comment> \<open>\<open>url.QueryEscape\<close>: a space becomes \<open>+\<close>, every other byte that
      \<open>shouldEscape\<close> becomes \<open>%XX\<close>\<close>
  "url_QueryEscape [] = []"
| "url_QueryEscape (c # s) =
     (if c = CHR '' '' then CHR ''+'' # url_QueryEscape s
      else if shouldEscape c
        then CHR ''%'' # upperhex (of_char c div 16) # upperhex (of_char c mod 16)
               # url_QueryEscape s
      else c # url_QueryEscape s)"

section \<open>The outside world\<close>

record request =
  Method :: string
  URL :: string
  ReqBody :: "string option"
  BasicAuth :: "(string \<times> string) option"

record response =
  StatusCode :: int
  Status :: string
  Body :: "bytes \<times> error option"

text \<open>
  \<open>ReqBody\<close> is the \<open>io.Reader\<close> given to \<open>http.NewRequest\<close>: \<open>None\<close> for nil, else
  the bytes it yields. \<open>BasicAuth\<close> is what \<open>SetBasicAuth\<close> stored. \<open>Body\<close> of a
  response is what \<open>ioutil.ReadAll(response.Body)\<close> returns: the bytes read and the
  read error.

  The effects of the package are those on the network and on the logger: \<open>sent\<close> lists
  the requests handed to \<open>httpClient.Do\<close>, \<open>closed\<close> counts the response bodies
  closed, \<open>logged\<close> lists the messages given to \<open>log.Printf\<close>, formatted.
\<close>

record world =
  sent :: "request list"
  closed :: nat
  logged :: "string list"

section \<open>The selector codec\<close>

fun EncodeSelector_loop :: "(string \<times> string) list \<Rightarrow> string list \<Rightarrow> string list" where
  "EncodeSelector_loop [] parts = parts"
| "EncodeSelector_loop ((key, value) # kvs) parts =
     EncodeSelector_loop kvs (parts @ [key @ ''='' @ value])"

definition EncodeSelector_parts :: "(string \<times> string) list \<Rightarrow> string" where
  \<comment> \<open>the argument of \<open>url.QueryEscape\<close> in \<open>EncodeSelector\<close>\<close>
  "EncodeSelector_parts kvs = strings_Join (EncodeSelector_loop kvs []) '',''"

definition EncodeSelector :: "(selector \<Rightarrow> (string \<times> string) list) \<Rightarrow> selector \<Rightarrow> string" where
  \<comment> \<open>\<open>rng\<close> is the order in which the runtime ranges over a map\<close>
  "EncodeSelector rng selector = url_QueryEscape (EncodeSelector_parts (rng selector))"

fun DecodeSelector_loop ::
  "string \<Rightarrow> string list \<Rightarrow> (string \<rightharpoonup> string) \<Rightarrow> world \<Rightarrow> (string \<rightharpoonup> string) \<times> world" where
  "DecodeSelector_loop selector [] result w = (result, w)"
| "DecodeSelector_loop selector (part # parts) result w =
     (let pieces = strings_Split CHR ''='' part
      in if length pieces = 2
         then DecodeSelector_loop selector parts (result(pieces ! 0 \<mapsto> pieces ! 1)) w
         else DecodeSelector_loop selector parts result
                (w\<lparr>logged := logged w @ [''Invalid selector: '' @ selector]\<rparr>))"

definition DecodeSelector :: "string \<Rightarrow> world \<Rightarrow> selector \<times> world" where
  "DecodeSelector selector w =
     (if length selector = 0 then (Some Map.empty, w)
      else (let parts = strings_Split CHR '','' selector;
                (result, w') = DecodeSelector_loop selector parts Map.empty w
            in (Some result, w')))"

section \<open>The transport core\<close>

record AuthInfo =
  User :: string
  Password :: string

text \<open>
  The \<open>httpClient\<close> of a \<open>Client\<close> is the network behind it; what it answers is
  \<open>httpDo\<close> of the collaborators below.
\<close>

record Client =
  host :: string
  auth :: "AuthInfo option"

text \<open>
  The collaborators of the package, none of them defined in it:
  \<^item> \<open>newRequestErr method url\<close>: the error of \<open>http.NewRequest\<close>, if it has one;
  \<^item> \<open>httpDo\<close>: the answer of \<open>httpClient.Do\<close>, an error or a response;
  \<^item> \<open>goSyntax\<close>: the verb \<open>%#v\<close> of package fmt on a request;
  \<^item> \<open>marshal\<close>: \<open>json.Marshal\<close>, returning bytes and an error;
  \<^item> \<open>decodeInto\<close>: \<open>api.DecodeInto(body, target)\<close>, returning what the target
    holds afterwards and an error;
  \<^item> \<open>objID\<close>: the field \<open>ID\<close> of an object of package api;
  \<^item> \<open>zero\<close>: the zero value of the result type (\<open>var result api.Pod\<close>).
\<close>

record ('o, 't) env =
  newRequestErr :: "string \<Rightarrow> string \<Rightarrow> error option"
  httpDo :: "request \<Rightarrow> error + response"
  goSyntax :: "request \<Rightarrow> string"
  marshal :: "'o \<Rightarrow> bytes \<times> error option"
  decodeInto :: "bytes \<Rightarrow> 't \<Rightarrow> 't \<times> error option"
  objID :: "'o \<Rightarrow> string"
  zero :: "'t"

definition New :: "string \<Rightarrow> AuthInfo option \<Rightarrow> Client" where
  "New h a = \<lparr>host = h, auth = a\<rparr>"

definition StatusOK :: int where
  "StatusOK = 200"

definition StatusPartialContent :: int where
  "StatusPartialContent = 206"

definition http_NewRequest ::
  "('o, 't) env \<Rightarrow> string \<Rightarrow> string \<Rightarrow> string option \<Rightarrow> error + request" where
  "http_NewRequest env method url body =
     (case newRequestErr env method url of
        Some e \<Rightarrow> Inl e
      | None \<Rightarrow> Inr \<lparr>Method = method, URL = url, ReqBody = body, BasicAuth = None\<rparr>)"

definition SetBasicAuth :: "request \<Rightarrow> string \<Rightarrow> string \<Rightarrow> request" where
  "SetBasicAuth r u p = r\<lparr>BasicAuth := Some (u, p)\<rparr>"

definition status_error :: "('o, 't) env \<Rightarrow> request \<Rightarrow> response \<Rightarrow> bytes \<Rightarrow> error" where
  \<comment> \<open>\<open>fmt.Errorf("request [%#v] failed (%d) %s: %s", request, response.StatusCode,
      response.Status, string(body))\<close>\<close>
  "status_error env request resp body =
     Error (''request ['' @ goSyntax env request @ ''] failed ('' @ fmt_d (StatusCode resp)
            @ '') '' @ Status resp @ '': '' @ string_of body)"

definition doRequest ::
  "('o, 't) env \<Rightarrow> Client \<Rightarrow> request \<Rightarrow> world \<Rightarrow> (bytes \<times> error option) \<times> world" where
  "doRequest env c request0 w =
     (let request = (case auth c of
                       Some a \<Rightarrow> SetBasicAuth request0 (User a) (Password a)
                     | None \<Rightarrow> request0);
          w1 = w\<lparr>sent := sent w @ [request]\<rparr>
      in case httpDo env request of
           Inl err \<Rightarrow> ((Some [], Some err), w1)
         | Inr resp \<Rightarrow>
             (let (body, err) = Body resp;
                  w2 = w1\<lparr>closed := closed w1 + 1\<rparr>
              in if err \<noteq> None then ((body, err), w2)
                 else if StatusCode resp < StatusOK \<or> StatusCode resp > StatusPartialContent
                   then ((None, Some (status_error env request resp body)), w2)
                 else ((body, err), w2)))"

definition makeURL :: "Client \<Rightarrow> string \<Rightarrow> string" where
  "makeURL client path = host client @ ''/api/v1beta1/'' @ path"

definition rawRequest ::
  "('o, 't) env \<Rightarrow> Client \<Rightarrow> string \<Rightarrow> string \<Rightarrow> string option \<Rightarrow> 't option \<Rightarrow> world
     \<Rightarrow> (bytes \<times> error option) \<times> 't option \<times> world" where
  \<comment> \<open>the target is a pointer: \<open>None\<close> for nil, and what it points to is returned
      as it is after the call\<close>
  "rawRequest env c method path requestBody target w =
     (case http_NewRequest env method (makeURL c path) requestBody of
        Inl err \<Rightarrow> ((Some [], Some err), target, w)
      | Inr request \<Rightarrow>
          (let ((body, err), w1) = doRequest env c request w
           in if err \<noteq> None then ((body, err), target, w1)
              else (let (target', err') =
                          (case target of
                             Some t \<Rightarrow> (let (t', e) = decodeInto env body t in (Some t', e))
                           | None \<Rightarrow> (None, err));
                        w2 = (if err' \<noteq> None
                              then w1\<lparr>logged := logged w1
                                     @ [''Failed to parse: '' @ string_of body @ [CHR 0x0A]]\<rparr>
                              else w1)
                    in ((body, err'), target', w2))))"

section \<open>The resource facade\<close>

definition result_of :: "('o, 't) env \<Rightarrow> 't option \<Rightarrow> 't" where
  \<comment> \<open>reading \<open>result\<close> back after \<open>&result\<close> was passed as the target\<close>
  "result_of env target = (case target of Some t \<Rightarrow> t | None \<Rightarrow> zero env)"

text \<open>
  Every method declares \<open>var result\<close>, passes \<open>&result\<close> as the target and returns
  \<open>result\<close> with the error. A create or update marshals its object first and calls
  \<open>rawRequest\<close> only when that gave no error; \<open>bytes.NewBuffer(body)\<close> is a reader
  that yields the bytes of \<open>body\<close>.
\<close>

definition ListPods ::
  "('o, 't) env \<Rightarrow> (selector \<Rightarrow> (string \<times> string) list) \<Rightarrow> Client \<Rightarrow> selector \<Rightarrow> world
     \<Rightarrow> ('t \<times> error option) \<times> world" where
  "ListPods env rng client selector w =
     (let path = ''pods'';
          path = (if selector \<noteq> None \<and> len selector > 0
                  then path @ ''?labels='' @ EncodeSelector rng selector
                  else path);
          result = zero env;
          ((_, err), target, w') = rawRequest env client ''GET'' path None (Some result) w
      in ((result_of env target, err), w'))"

definition GetPod ::
  "('o, 't) env \<Rightarrow> Client \<Rightarrow> string \<Rightarrow> world \<Rightarrow> ('t \<times> error option) \<times> world" where
  "GetPod env client name w =
     (let result = zero env;
          ((_, err), target, w') =
             rawRequest env client ''GET'' (''pods/'' @ name) None (Some result) w
      in ((result_of env target, err), w'))"

definition DeletePod ::
  "('o, 't) env \<Rightarrow> Client \<Rightarrow> string \<Rightarrow> world \<Rightarrow> error option \<times> world" where
  "DeletePod env client name w =
     (let ((_, err), _, w') = rawRequest env client ''DELETE'' (''pods/'' @ name) None None w
      in (err, w'))"

definition CreatePod ::
  "('o, 't) env \<Rightarrow> Client \<Rightarrow> 'o \<Rightarrow> world \<Rightarrow> ('t \<times> error option) \<times> world" where
  "CreatePod env client pod w =
     (let result = zero env;
          (body, err) = marshal env pod
      in if err = None
         then (let ((_, err'), target, w') =
                     rawRequest env client ''POST'' (''pods'')
                       (Some (string_of body)) (Some result) w
               in ((result_of env target, err'), w'))
         else ((result, err), w))"

definition UpdatePod ::
  "('o, 't) env \<Rightarrow> Client \<Rightarrow> 'o \<Rightarrow> world \<Rightarrow> ('t \<times> error option) \<times> world" where
  "UpdatePod env client pod w =
     (let result = zero env;
          (body, err) = marshal env pod
      in if err = None
         then (let ((_, err'), target, w') =
                     rawRequest env client ''PUT'' (''pods/'' @ objID env pod)
                       (Some (string_of body)) (Some result) w
               in ((result_of env target, err'), w'))
         else ((result, err), w))"

definition GetReplicationController ::
  "('o, 't) env \<Rightarrow> Client \<Rightarrow> string \<Rightarrow> world \<Rightarrow> ('t \<times> error option) \<times> world" where
  "GetReplicationController env client name w =
     (let result = zero env;
          ((_, err), target, w') =
             rawRequest env client ''GET'' (''replicationControllers/'' @ name) None (Some result) w
      in ((result_of env target, err), w'))"

definition CreateReplicationController ::
  "('o, 't) env \<Rightarrow> Client \<Rightarrow> 'o \<Rightarrow> world \<Rightarrow> ('t \<times> error option) \<times> world" where
  "CreateReplicationController env client controller w =
     (let result = zero env;
          (body, err) = marshal env controller
      in if err = None
         then (let ((_, err'), target, w') =
                     rawRequest env client ''POST'' (''replicationControllers'')
                       (Some (string_of body)) (Some result) w
               in ((result_of env target, err'), w'))
         else ((result, err), w))"

definition UpdateReplicationController ::
  "('o, 't) env \<Rightarrow> Client \<Rightarrow> 'o \<Rightarrow> world \<Rightarrow> ('t \<times> error option) \<times> world" where
  "UpdateReplicationController env client controller w =
     (let result = zero env;
          (body, err) = marshal env controller
      in if err = None
         then (let ((_, err'), target, w') =
                     rawRequest env client ''PUT'' (''replicationControllers/'' @ objID env controller)
                       (Some (string_of body)) (Some result) w
               in ((result_of env target, err'), w'))
         else ((result, err), w))"

definition DeleteReplicationController ::
  "('o, 't) env \<Rightarrow> Client \<Rightarrow> string \<Rightarrow> world \<Rightarrow> error option \<times> world" where
  "DeleteReplicationController env client name w =
     (let ((_, err), _, w') = rawRequest env client ''DELETE'' (''replicationControllers/'' @ name) None None w
      in (err, w'))"

definition GetService ::
  "('o, 't) env \<Rightarrow> Client \<Rightarrow> string \<Rightarrow> world \<Rightarrow> ('t \<times> error option) \<times> world" where
  "GetService env client name w =
     (let result = zero env;
          ((_, err), target, w') =
             rawRequest env client ''GET'' (''services/'' @ name) None (Some result) w
      in ((result_of env target, err), w'))"

definition CreateService ::
  "('o, 't) env \<Rightarrow> Client \<Rightarrow> 'o \<Rightarrow> world \<Rightarrow> ('t \<times> error option) \<times> world" where
  "CreateService env client svc w =
     (let result = zero env;
          (body, err) = marshal env svc
      in if err = None
         then (let ((_, err'), target, w') =
                     rawRequest env client ''POST'' (''services'')
                       (Some (string_of body)) (Some result) w
               in ((result_of env target, err'), w'))
         else ((result, err), w))"

definition UpdateService ::
  "('o, 't) env \<Rightarrow> Client \<Rightarrow> 'o \<Rightarrow> world \<Rightarrow> ('t \<times> error option) \<times> world" where
  "UpdateService env client svc w =
     (let result = zero env;
          (body, err) = marshal env svc
      in if err = None
         then (let ((_, err'), target, w') =
                     rawRequest env client ''PUT'' (''services/'' @ objID env svc)
                       (Some (string_of body)) (Some result) w
               in ((result_of env target, err'), w'))
         else ((result, err), w))"

definition DeleteService ::
  "('o, 't) env \<Rightarrow> Client \<Rightarrow> string \<Rightarrow> world \<Rightarrow> error option \<times> world" where
  "DeleteService env client name w =
     (let ((_, err), _, w') = rawRequest env client ''DELETE'' (''services/'' @ name) None None w
      in (err, w'))"

section \<open>The specification's words for decoding\<close>

text \<open>
  The specification describes \<open>Decode\<close> fragment by fragment: a fragment that splits
  on \<open>=\<close> into exactly two pieces contributes one entry, any other fragment is skipped
  with one logged diagnostic. \<open>spec_Decode\<close> and \<open>spec_skipped\<close> say this without
  the loop of the code, to be compared with \<open>DecodeSelector\<close>.
\<close>

definition spec_fragment :: "string \<Rightarrow> (string \<times> string) option" where
  "spec_fragment part =
     (case strings_Split CHR ''='' part of [k, v] \<Rightarrow> Some (k, v) | _ \<Rightarrow> None)"

definition spec_Decode :: "string \<Rightarrow> (string \<rightharpoonup> string)" where
  "spec_Decode wire =
     (if wire = [] then Map.empty
      else fold (\<lambda>(k, v) m. m(k \<mapsto> v))
             (List.map_filter spec_fragment (strings_Split CHR '','' wire)) Map.empty)"

definition spec_skipped :: "string \<Rightarrow> nat" where
  "spec_skipped wire =
     (if wire = [] then 0
      else length (filter (\<lambda>part. spec_fragment part = None) (strings_Split CHR '','' wire)))"

section \<open>Concrete inputs for the examples\<close>

definition fixed_order :: "(string \<times> string) list \<Rightarrow> selector \<Rightarrow> (string \<times> string) list" where
  \<comment> \<open>a runtime that ranges over the map in the order \<open>kvs\<close>\<close>
  "fixed_order kvs sel = kvs"

definition world0 :: world where
  "world0 = \<lparr>sent = [], closed = 0, logged = []\<rparr>"

definition stub_env :: "response \<Rightarrow> bytes \<times> error option \<Rightarrow> error option \<Rightarrow> (string, string) env" where
  \<comment> \<open>a server that answers every request with \<open>resp\<close>; objects are strings, each its
      own ID; marshalling gives \<open>m\<close>; decoding stores the body text and gives \<open>derr\<close>\<close>
  "stub_env resp m derr =
     \<lparr>newRequestErr = (\<lambda>method url. None),
      httpDo = (\<lambda>request. Inr resp),
      goSyntax = URL,
      marshal = (\<lambda>obj. m),
      decodeInto = (\<lambda>body target. (string_of body, derr)),
      objID = (\<lambda>obj. obj),
      zero = []\<rparr>"

definition client0 :: Client where
  "client0 = New ''http://master'' None"

definition not_found :: response where
  \<comment> \<open>a 404 answer with a body\<close>
  "not_found = \<lparr>StatusCode = 404, Status = ''404 Not Found'', Body = (Some ''no such pod'', None)\<rparr>"

definition answer :: "int \<Rightarrow> string \<Rightarrow> response" where
  \<comment> \<open>an answer with the given status code and body, read without error\<close>
  "answer code content = \<lparr>StatusCode = code, Status = fmt_d code, Body = (Some content, None)\<rparr>"

definition request0 :: request where
  "request0 = \<lparr>Method = ''GET'', URL = ''http://master/api/v1beta1/pods/foo'',
               ReqBody = None, BasicAuth = None\<rparr>"

section \<open>Facts about the library functions\<close>

lemma strings_Split_ne [simp]: "strings_Split sep s \<noteq> []"
  by (induction s) (auto simp: Let_def)

lemma strings_Split_no_sep: "sep \<notin> set s \<Longrightarrow> strings_Split sep s = [s]"
  by (induction s) (auto simp: Let_def)

lemma strings_Split_append:
  "sep \<notin> set a \<Longrightarrow> strings_Split sep (a @ sep # b) = a # strings_Split sep b"
  by (induction a) (auto simp: Let_def)

lemma strings_Split_Join:
  "ps \<noteq> [] \<Longrightarrow> \<forall>p \<in> set ps. sep \<notin> set p \<Longrightarrow>
   strings_Split sep (strings_Join ps [sep]) = ps"
proof (induction ps "[sep]" rule: strings_Join.induct)
  case 1
  then show ?case by simp
next
  case (2 p)
  then show ?case by (simp add: strings_Split_no_sep)
next
  case (3 p q ps)
  then show ?case by (simp add: strings_Split_append)
qed

lemma strings_Split_pair:
  "CHR ''='' \<notin> set k \<Longrightarrow> CHR ''='' \<notin> set v \<Longrightarrow>
   strings_Split CHR ''='' (k @ ''='' @ v) = [k, v]"
  by (simp add: strings_Split_append strings_Split_no_sep)

lemma spec_fragment_pair:
  "CHR ''='' \<notin> set k \<Longrightarrow> CHR ''='' \<notin> set v \<Longrightarrow> spec_fragment (k @ ''='' @ v) = Some (k, v)"
  unfolding spec_fragment_def by (simp add: strings_Split_pair del: append.simps)

lemma length_two: "length xs = 2 \<longleftrightarrow> (\<exists>a b. xs = [a, b])"
  by (cases xs; cases "tl xs"; cases "tl (tl xs)") auto

lemma DecodeSelector_loop_spec:
  "DecodeSelector_loop sel parts result w =
     (fold (\<lambda>(k, v) m. m(k \<mapsto> v)) (List.map_filter spec_fragment parts) result,
      w\<lparr>logged := logged w
           @ replicate (length (filter (\<lambda>part. spec_fragment part = None) parts))
               (''Invalid selector: '' @ sel)\<rparr>)"
proof (induction parts arbitrary: result w)
  case Nil
  then show ?case by simp
next
  case (Cons part parts)
  show ?case
  proof (cases "length (strings_Split CHR ''='' part) = 2")
    case True
    then obtain k v where kv: "strings_Split CHR ''='' part = [k, v]"
      by (auto simp: length_two)
    then show ?thesis
      by (simp add: Cons.IH spec_fragment_def)
  next
    case False
    then have "spec_fragment part = None"
      by (auto simp: spec_fragment_def split: list.splits)
    with False show ?thesis
      by (simp add: Cons.IH replicate_append_same)
  qed
qed

text \<open>
  C4. \<open>DecodeSelector\<close> is a total function whose result has no error component and
  is never the nil map. On the empty string it returns the empty map and logs nothing.
  On any other string it returns what the specification describes: the input is split
  on commas, each fragment on \<open>=\<close>; a fragment of exactly two pieces contributes an
  entry, every other fragment adds one diagnostic to the log and nothing else. So
  \<open>a=1,b\<close> decodes to the map with the one entry \<open>a \<mapsto> 1\<close>.
\<close>

theorem DecodeSelector_total:
  "DecodeSelector wire w =
     (Some (spec_Decode wire),
      w\<lparr>logged := logged w @ replicate (spec_skipped wire) (''Invalid selector: '' @ wire)\<rparr>)
   \<and> DecodeSelector [] w = (Some Map.empty, w)
   \<and> DecodeSelector ''a=1,b'' w =
       (Some [''a'' \<mapsto> ''1''], w\<lparr>logged := logged w @ [''Invalid selector: a=1,b'']\<rparr>)"
proof (intro conjI)
  show "DecodeSelector wire w =
     (Some (spec_Decode wire),
      w\<lparr>logged := logged w @ replicate (spec_skipped wire) (''Invalid selector: '' @ wire)\<rparr>)"
    by (simp add: DecodeSelector_def spec_Decode_def spec_skipped_def DecodeSelector_loop_spec Let_def)
  show "DecodeSelector [] w = (Some Map.empty, w)"
    by (simp add: DecodeSelector_def)
  show "DecodeSelector ''a=1,b'' w =
       (Some [''a'' \<mapsto> ''1''], w\<lparr>logged := logged w @ [''Invalid selector: a=1,b'']\<rparr>)"
    by (simp add: DecodeSelector_def Let_def)
qed


lemma fold_upd_other:
  "\<forall>v'. (k, v') \<notin> set kvs \<Longrightarrow> fold (\<lambda>(k, v) m. m(k \<mapsto> v)) kvs m k = m k"
  by (induction kvs arbitrary: m) auto

lemma fold_upd_distinct:
  "distinct (map fst kvs) \<Longrightarrow>
   fold (\<lambda>(k, v) m. m(k \<mapsto> v)) kvs m = m ++ map_of kvs"
proof (induction kvs arbitrary: m)
  case Nil
  then show ?case by simp
next
  case (Cons kv kvs)
  obtain k v where kv: "kv = (k, v)" by (cases kv)
  from Cons.prems kv have notin: "k \<notin> dom (map_of kvs)" and d: "distinct (map fst kvs)"
    by (auto simp: dom_map_of_conv_image_fst)
  have step: "m(k \<mapsto> v) ++ map_of kvs = m ++ map_of ((k, v) # kvs)"
    using notin by (auto simp: map_add_def fun_eq_iff split: option.splits)
  have "fold (\<lambda>(k, v) m. m(k \<mapsto> v)) (kv # kvs) m
          = fold (\<lambda>(k, v) m. m(k \<mapsto> v)) kvs (m(k \<mapsto> v))"
    by (simp add: kv)
  also have "\<dots> = m(k \<mapsto> v) ++ map_of kvs"
    by (rule Cons.IH [OF d])
  also have "\<dots> = m ++ map_of (kv # kvs)"
    using step by (simp only: kv)
  finally show ?case .
qed

lemma map_filter_append:
  "List.map_filter f (xs @ ys) = List.map_filter f xs @ List.map_filter f ys"
  by (simp add: List.map_filter_def)

lemma map_filter_pairs:
  "\<forall>(k, v) \<in> set kvs. CHR ''='' \<notin> set k \<and> CHR ''='' \<notin> set v \<Longrightarrow>
   List.map_filter spec_fragment (map (\<lambda>(k, v). k @ ''='' @ v) kvs) = kvs"
  by (induction kvs) (auto simp: spec_fragment_pair simp del: append.simps)

lemma filter_pairs:
  "\<forall>(k, v) \<in> set kvs. CHR ''='' \<notin> set k \<and> CHR ''='' \<notin> set v \<Longrightarrow>
   filter (\<lambda>part. spec_fragment part = None) (map (\<lambda>(k, v). k @ ''='' @ v) kvs) = []"
  by (induction kvs) (auto simp: spec_fragment_pair simp del: append.simps)

lemma EncodeSelector_loop_map:
  "EncodeSelector_loop kvs parts = parts @ map (\<lambda>(k, v). k @ ''='' @ v) kvs"
  by (induction kvs parts rule: EncodeSelector_loop.induct) auto

lemma strings_Join_Nil_iff:
  "strings_Join ps sep = [] \<Longrightarrow> \<forall>p \<in> set ps. p = []"
  by (induction ps sep rule: strings_Join.induct) auto

lemma DecodeSelector_nonempty:
  "wire \<noteq> [] \<Longrightarrow>
   DecodeSelector wire w =
     (Some (fold (\<lambda>(k, v) m. m(k \<mapsto> v))
              (List.map_filter spec_fragment (strings_Split CHR '','' wire)) Map.empty),
      w\<lparr>logged := logged w
           @ replicate (length (filter (\<lambda>part. spec_fragment part = None)
                                  (strings_Split CHR '','' wire)))
               (''Invalid selector: '' @ wire)\<rparr>)"
  by (simp add: DecodeSelector_def DecodeSelector_loop_spec Let_def)

lemma DecodeSelector_parts:
  assumes d: "distinct (map fst kvs)"
    and ok: "\<forall>(k, v) \<in> set kvs. CHR ''='' \<notin> set k \<and> CHR ''='' \<notin> set v
                \<and> CHR '','' \<notin> set k \<and> CHR '','' \<notin> set v"
  shows "DecodeSelector (EncodeSelector_parts kvs) w = (Some (map_of kvs), w)"
proof (cases kvs)
  case Nil
  then show ?thesis
    by (simp add: EncodeSelector_parts_def DecodeSelector_def)
next
  case (Cons kv kvs')
  let ?ps = "map (\<lambda>(k, v). k @ ''='' @ v) kvs"
  have ne: "?ps \<noteq> []" using Cons by simp
  have nocomma: "\<forall>p \<in> set ?ps. CHR '','' \<notin> set p"
    using ok by auto
  have split: "strings_Split CHR '','' (strings_Join ?ps '','') = ?ps"
    using strings_Split_Join [OF ne nocomma] by simp
  have "\<exists>p \<in> set ?ps. p \<noteq> []"
    using Cons by (cases kv) auto
  then have wire: "strings_Join ?ps '','' \<noteq> []"
    using strings_Join_Nil_iff by blast
  have eq: "\<forall>(k, v) \<in> set kvs. CHR ''='' \<notin> set k \<and> CHR ''='' \<notin> set v"
    using ok by auto
  show ?thesis
    unfolding EncodeSelector_parts_def EncodeSelector_loop_map append_Nil
    by (simp only: DecodeSelector_nonempty [OF wire] split map_filter_pairs [OF eq]
        filter_pairs [OF eq] fold_upd_distinct [OF d]) simp
qed

lemma upperhex_alnum: "n < 16 \<Longrightarrow> upperhex n \<in> set ''0123456789ABCDEF''"
  unfolding upperhex_def by (rule nth_mem) simp

lemma of_char_div: "(of_char c :: nat) div 16 < 16"
proof -
  have "(of_char c :: nat) < 256" by simp
  then show ?thesis by arith
qed

lemma url_QueryEscape_no_sep:
  "CHR ''='' \<notin> set (url_QueryEscape s) \<and> CHR '','' \<notin> set (url_QueryEscape s)"
proof (induction s)
  case Nil
  then show ?case by simp
next
  case (Cons c s)
  have h1: "upperhex (of_char c div 16) \<noteq> CHR ''='' \<and> upperhex (of_char c div 16) \<noteq> CHR '',''"
    using upperhex_alnum [OF of_char_div [of c]] by auto
  have "(of_char c :: nat) mod 16 < 16" by simp
  then have h2: "upperhex (of_char c mod 16) \<noteq> CHR ''=''
       \<and> upperhex (of_char c mod 16) \<noteq> CHR '',''"
    using upperhex_alnum by fastforce
  have h3: "shouldEscape CHR ''=''" "shouldEscape CHR '',''"
    by (simp_all add: shouldEscape_def)
  show ?case using Cons h1 h2 h3 by auto
qed

lemma url_QueryEscape_Nil: "url_QueryEscape s = [] \<longleftrightarrow> s = []"
  by (cases s) auto

lemma DecodeSelector_escaped:
  assumes "s \<noteq> []"
  shows "DecodeSelector (url_QueryEscape s) w =
    (Some Map.empty, w\<lparr>logged := logged w @ [''Invalid selector: '' @ url_QueryEscape s]\<rparr>)"
proof -
  let ?e = "url_QueryEscape s"
  have ne: "?e \<noteq> []" using assms by (simp add: url_QueryEscape_Nil)
  have c: "strings_Split CHR '','' ?e = [?e]"
    using url_QueryEscape_no_sep by (simp add: strings_Split_no_sep)
  have q: "strings_Split CHR ''='' ?e = [?e]"
    using url_QueryEscape_no_sep by (simp add: strings_Split_no_sep)
  have f: "spec_fragment ?e = None"
    by (simp add: spec_fragment_def q)
  show ?thesis
    by (simp add: DecodeSelector_nonempty [OF ne] c f)
qed

text \<open>
  C2 (amended). For every selector whose keys and values contain neither \<open>=\<close> nor
  \<open>,\<close>, and every order in which the runtime ranges over it: \<open>EncodeSelector\<close>
  returns the URL-escaped form of the comma-joined \<open>key=value\<close> pairs, and
  \<open>DecodeSelector\<close> applied to that joined string before escaping returns the
  selector, logging nothing. Applied to the escaped string that \<open>EncodeSelector\<close>
  returns, \<open>DecodeSelector\<close> gives the selector back only when it is empty: for a
  selector with an entry the result is the empty map and one diagnostic is logged,
  since escaping has replaced every \<open>=\<close> and \<open>,\<close>.
\<close>

theorem roundtrip_unescaped:
  assumes r: "ranges (rng S) S"
    and ok: "\<forall>k v. entries S k = Some v \<longrightarrow>
               CHR ''='' \<notin> set k \<and> CHR ''='' \<notin> set v \<and> CHR '','' \<notin> set k \<and> CHR '','' \<notin> set v"
  shows "EncodeSelector rng S = url_QueryEscape (EncodeSelector_parts (rng S))
    \<and> DecodeSelector (EncodeSelector_parts (rng S)) w = (Some (entries S), w)
    \<and> (if entries S = Map.empty
       then DecodeSelector (EncodeSelector rng S) w = (Some Map.empty, w)
       else DecodeSelector (EncodeSelector rng S) w =
              (Some Map.empty,
               w\<lparr>logged := logged w @ [''Invalid selector: '' @ EncodeSelector rng S]\<rparr>))"
proof -
  let ?kvs = "rng S"
  from r have d: "distinct (map fst ?kvs)" and m: "map_of ?kvs = entries S"
    by (simp_all add: ranges_def)
  have ok': "\<forall>(k, v) \<in> set ?kvs. CHR ''='' \<notin> set k \<and> CHR ''='' \<notin> set v
                \<and> CHR '','' \<notin> set k \<and> CHR '','' \<notin> set v"
  proof (clarify)
    fix k v assume "(k, v) \<in> set ?kvs"
    with d have "map_of ?kvs k = Some v" by simp
    with m ok show "CHR ''='' \<notin> set k \<and> CHR ''='' \<notin> set v
                \<and> CHR '','' \<notin> set k \<and> CHR '','' \<notin> set v" by simp
  qed
  have one: "EncodeSelector rng S = url_QueryEscape (EncodeSelector_parts ?kvs)"
    by (simp add: EncodeSelector_def)
  have two: "DecodeSelector (EncodeSelector_parts ?kvs) w = (Some (entries S), w)"
    using DecodeSelector_parts [OF d ok'] m by simp
  have three: "entries S = Map.empty \<Longrightarrow>
      DecodeSelector (EncodeSelector rng S) w = (Some Map.empty, w)"
  proof -
    assume "entries S = Map.empty"
    with m have "?kvs = []" by (simp add: map_of_eq_empty_iff)
    then show ?thesis
      by (simp add: EncodeSelector_def EncodeSelector_parts_def DecodeSelector_def)
  qed
  have four: "entries S \<noteq> Map.empty \<Longrightarrow>
      DecodeSelector (EncodeSelector rng S) w =
        (Some Map.empty,
         w\<lparr>logged := logged w @ [''Invalid selector: '' @ EncodeSelector rng S]\<rparr>)"
  proof -
    assume "entries S \<noteq> Map.empty"
    with m obtain kv kvs' where kvs: "?kvs = kv # kvs'" by (cases ?kvs) auto
    let ?ps = "map (\<lambda>(k, v). k @ ''='' @ v) ?kvs"
    have "\<exists>p \<in> set ?ps. p \<noteq> []"
      using kvs by (cases kv) auto
    then have "strings_Join ?ps '','' \<noteq> []"
      using strings_Join_Nil_iff by blast
    then have "EncodeSelector_parts ?kvs \<noteq> []"
      by (simp add: EncodeSelector_parts_def EncodeSelector_loop_map)
    then show ?thesis
      unfolding EncodeSelector_def by (rule DecodeSelector_escaped)
  qed
  from one two three four show ?thesis by simp
qed

theorem roundtrip_unescaped_witness:
  "ranges (fixed_order [(''a'', ''1''), (''b'', ''2'')] (Some (map_of [(''a'', ''1''), (''b'', ''2'')])))
          (Some (map_of [(''a'', ''1''), (''b'', ''2'')]))
   \<and> EncodeSelector_parts (fixed_order [(''a'', ''1''), (''b'', ''2'')]
                              (Some (map_of [(''a'', ''1''), (''b'', ''2'')]))) = ''a=1,b=2''
   \<and> DecodeSelector ''a=1,b=2'' world0 = (Some (map_of [(''a'', ''1''), (''b'', ''2'')]), world0)
   \<and> EncodeSelector (fixed_order [(''a'', ''1''), (''b'', ''2'')])
                    (Some (map_of [(''a'', ''1''), (''b'', ''2'')])) = ''a%3D1%2Cb%3D2''
   \<and> DecodeSelector ''a%3D1%2Cb%3D2'' world0
       = (Some Map.empty, world0\<lparr>logged := logged world0 @ [''Invalid selector: '' @ ''a%3D1%2Cb%3D2'']\<rparr>)"
proof -
  define kvs where "kvs = [(''a'', ''1''), (''b'', ''2'')]"
  define S where "S = Some (map_of kvs)"
  have r: "ranges (fixed_order kvs S) S"
    by (simp add: ranges_def fixed_order_def entries_def S_def kvs_def)
  have s: "entries S = map_of kvs"
    by (simp add: entries_def S_def)
  have ok: "\<forall>k v. entries S k = Some v \<longrightarrow>
               CHR ''='' \<notin> set k \<and> CHR ''='' \<notin> set v \<and> CHR '','' \<notin> set k \<and> CHR '','' \<notin> set v"
    unfolding s kvs_def by (auto split: if_splits)
  have p: "EncodeSelector_parts (fixed_order kvs S) = ''a=1,b=2''"
    by (simp add: EncodeSelector_parts_def fixed_order_def kvs_def)
  have e: "EncodeSelector (fixed_order kvs) S = ''a%3D1%2Cb%3D2''"
    unfolding EncodeSelector_def p by (simp add: shouldEscape_def upperhex_def)
  have "entries S ''a'' = Some ''1''"
    unfolding s kvs_def by simp
  then have ne: "entries S \<noteq> Map.empty"
    by auto
  note T = roundtrip_unescaped [of "fixed_order kvs" S world0, OF r ok]
  note A = T [THEN conjunct2, THEN conjunct1, unfolded p s]
  have B: "DecodeSelector ''a%3D1%2Cb%3D2'' world0
       = (Some Map.empty, world0\<lparr>logged := logged world0 @ [''Invalid selector: '' @ ''a%3D1%2Cb%3D2'']\<rparr>)"
    using T [THEN conjunct2, THEN conjunct2] ne unfolding e by (simp only: if_False)
  show ?thesis
    using r p e A B unfolding S_def kvs_def by (intro conjI)
qed

theorem roundtrip_escaped_counterexample:
  "ranges (fixed_order [(''a'', ''1'')] (Some [''a'' \<mapsto> ''1''])) (Some [''a'' \<mapsto> ''1''])
   \<and> CHR ''='' \<notin> set ''a'' \<and> CHR '','' \<notin> set ''a'' \<and> CHR ''='' \<notin> set ''1'' \<and> CHR '','' \<notin> set ''1''
   \<and> EncodeSelector (fixed_order [(''a'', ''1'')]) (Some [''a'' \<mapsto> ''1'']) = ''a%3D1''
   \<and> fst (DecodeSelector (EncodeSelector (fixed_order [(''a'', ''1'')]) (Some [''a'' \<mapsto> ''1''])) world0)
       \<noteq> Some [''a'' \<mapsto> ''1'']"
proof -
  have e: "EncodeSelector (fixed_order [(''a'', ''1'')]) (Some [''a'' \<mapsto> ''1'']) = ''a%3D1''"
    by (simp add: EncodeSelector_def EncodeSelector_parts_def fixed_order_def
        shouldEscape_def upperhex_def)
  have d: "fst (DecodeSelector ''a%3D1'' world0) = Some Map.empty"
    by (simp add: DecodeSelector_def Let_def)
  have r: "ranges (fixed_order [(''a'', ''1'')] (Some [''a'' \<mapsto> ''1''])) (Some [''a'' \<mapsto> ''1''])"
    by (simp add: ranges_def fixed_order_def entries_def)
  have "[''a'' \<mapsto> ''1''] \<noteq> Map.empty"
    by (rule map_upd_nonempty)
  then have n: "Some Map.empty \<noteq> Some [''a'' \<mapsto> ''1'']"
    by (simp only: option.inject not_False_eq_True) (rule not_sym)
  have c: "CHR ''='' \<notin> set ''a'' \<and> CHR '','' \<notin> set ''a'' \<and> CHR ''='' \<notin> set ''1'' \<and> CHR '','' \<notin> set ''1''"
    by simp
  show ?thesis unfolding e d using r n c by (intro conjI) simp_all
qed

lemma fold_upd_last:
  "\<forall>v'. (k, v') \<notin> set after \<Longrightarrow>
   fold (\<lambda>(k, v) m. m(k \<mapsto> v)) (before @ (k, v) # after) m k = Some v"
  by (simp add: fold_upd_other)

text \<open>
  C9. When a wire string holds two fragments \<open>k=v1\<close> and, later, \<open>k=v2\<close> for the same
  key, among any other comma-free fragments, and no fragment after the second one has
  the key \<open>k\<close>, the decoded map gives \<open>k\<close> the later value \<open>v2\<close>. The wire string
  made of the two fragments alone decodes to the map with the single entry
  \<open>k \<mapsto> v2\<close>: one entry for the one distinct key.
\<close>

theorem DecodeSelector_later_wins:
  assumes commas: "\<forall>f \<in> set (fs1 @ fs2 @ fs3). CHR '','' \<notin> set f"
    and k: "CHR ''='' \<notin> set k" "CHR '','' \<notin> set k"
    and v1: "CHR ''='' \<notin> set v1" "CHR '','' \<notin> set v1"
    and v2: "CHR ''='' \<notin> set v2" "CHR '','' \<notin> set v2"
    and last: "\<forall>f \<in> set fs3. \<forall>v'. spec_fragment f \<noteq> Some (k, v')"
  shows "entries (fst (DecodeSelector
            (strings_Join (fs1 @ [k @ ''='' @ v1] @ fs2 @ [k @ ''='' @ v2] @ fs3) '','') w)) k
         = Some v2
    \<and> fst (DecodeSelector (k @ ''='' @ v1 @ '','' @ k @ ''='' @ v2) w) = Some [k \<mapsto> v2]"
proof
  let ?a = "k @ ''='' @ v1" and ?b = "k @ ''='' @ v2"
  let ?fs = "fs1 @ [?a] @ fs2 @ [?b] @ fs3"
  have ne: "?fs \<noteq> []" by simp
  have nc: "\<forall>f \<in> set ?fs. CHR '','' \<notin> set f"
    using commas k v1 v2 by auto
  have sp: "strings_Split CHR '','' (strings_Join ?fs '','') = ?fs"
    using strings_Split_Join [OF ne nc] by simp
  have "\<exists>p \<in> set ?fs. p \<noteq> []" by auto
  then have wire: "strings_Join ?fs '','' \<noteq> []"
    using strings_Join_Nil_iff by blast
  have mf: "List.map_filter spec_fragment ?fs
      = (List.map_filter spec_fragment (fs1 @ [?a] @ fs2)) @ (k, v2) # List.map_filter spec_fragment fs3"
    using spec_fragment_pair [OF k(1) v2(1)]
    by (simp add: map_filter_append del: append.simps append_assoc) 
  have after: "\<forall>v'. (k, v') \<notin> set (List.map_filter spec_fragment fs3)"
    using last by (auto simp: List.map_filter_def)
  show "entries (fst (DecodeSelector (strings_Join ?fs '','') w)) k = Some v2"
    unfolding DecodeSelector_nonempty [OF wire] sp mf
    by (simp only: fst_conv entries_def option.case fold_upd_last [OF after])
next
  have wire: "k @ ''='' @ v1 @ '','' @ k @ ''='' @ v2 \<noteq> []" by simp
  have nc: "CHR '','' \<notin> set (k @ ''='' @ v1)" "CHR '','' \<notin> set (k @ ''='' @ v2)"
    using k v1 v2 by auto
  have sp: "strings_Split CHR '','' (k @ ''='' @ v1 @ '','' @ k @ ''='' @ v2)
       = [k @ ''='' @ v1, k @ ''='' @ v2]"
    using strings_Split_append [OF nc(1), of "k @ ''='' @ v2"] strings_Split_no_sep [OF nc(2)]
    by simp
  show "fst (DecodeSelector (k @ ''='' @ v1 @ '','' @ k @ ''='' @ v2) w) = Some [k \<mapsto> v2]"
    unfolding DecodeSelector_nonempty [OF wire] sp
    using spec_fragment_pair [OF k(1) v1(1)] spec_fragment_pair [OF k(1) v2(1)]
    by (simp del: append.simps)
qed

theorem DecodeSelector_later_wins_witness:
  "entries (fst (DecodeSelector ''x=0,a=1,y=5,a=2,z=9'' world0)) ''a'' = Some ''2''
   \<and> fst (DecodeSelector ''a=1,a=2'' world0) = Some [''a'' \<mapsto> ''2'']
   \<and> dom (entries (fst (DecodeSelector ''a=1,a=2'' world0))) = {''a''}"
proof -
  have l: "\<forall>f \<in> set [''z=9'']. \<forall>v'. spec_fragment f \<noteq> Some (''a'', v')"
    by (simp add: spec_fragment_def)
  have c: "\<forall>f \<in> set ([''x=0''] @ [''y=5''] @ [''z=9'']). CHR '','' \<notin> set f"
    by simp
  show ?thesis
    using DecodeSelector_later_wins [of "[''x=0'']" "[''y=5'']" "[''z=9'']" "''a''" "''1''" "''2''" world0,
        OF c _ _ _ _ _ _ l]
    by (simp add: entries_def)
qed

text \<open>
  C10. \<open>EncodeSelector\<close> returns the empty string on the nil map and on the empty
  map, whatever the runtime's range order, and \<open>DecodeSelector\<close> takes the encoding
  of the empty map back to the empty map, logging nothing.
\<close>

theorem empty_selector_roundtrip:
  assumes "ranges (rng None) None" and "ranges (rng (Some Map.empty)) (Some Map.empty)"
  shows "EncodeSelector rng None = []
    \<and> EncodeSelector rng (Some Map.empty) = []
    \<and> DecodeSelector (EncodeSelector rng (Some Map.empty)) w = (Some Map.empty, w)"
proof -
  from assms have "rng None = []" and "rng (Some Map.empty) = []"
    by (simp_all add: ranges_def entries_def map_of_eq_empty_iff)
  then show ?thesis
    by (simp add: EncodeSelector_def EncodeSelector_parts_def DecodeSelector_def)
qed

theorem empty_selector_roundtrip_witness:
  "ranges (fixed_order [] None) None \<and> ranges (fixed_order [] (Some Map.empty)) (Some Map.empty)
   \<and> EncodeSelector (fixed_order []) None = []
   \<and> EncodeSelector (fixed_order []) (Some Map.empty) = []
   \<and> DecodeSelector (EncodeSelector (fixed_order []) (Some Map.empty)) world0
       = (Some Map.empty, world0)"
proof -
  have a: "ranges (fixed_order [] None) None"
    and b: "ranges (fixed_order [] (Some Map.empty)) (Some Map.empty)"
    by (simp_all add: ranges_def fixed_order_def entries_def)
  show ?thesis using empty_selector_roundtrip [OF a b, of world0] a b by blast
qed

section \<open>The transport core and the facade\<close>

lemma doRequest_response:
  assumes "httpDo env (case auth c of Some a \<Rightarrow> SetBasicAuth request (User a) (Password a)
                                    | None \<Rightarrow> request) = Inr resp"
    and "snd (Body resp) = None"
  shows "fst (doRequest env c request w) =
     (if StatusCode resp < 200 \<or> StatusCode resp > 206
      then (None, Some (status_error env
              (case auth c of Some a \<Rightarrow> SetBasicAuth request (User a) (Password a)
                            | None \<Rightarrow> request) resp (fst (Body resp))))
      else (fst (Body resp), None))"
  using assms
  by (cases "Body resp")
     (simp add: doRequest_def Let_def StatusOK_def StatusPartialContent_def)

lemma doRequest_world:
  "snd (doRequest env c request w) =
     (case httpDo env (case auth c of Some a \<Rightarrow> SetBasicAuth request (User a) (Password a)
                                    | None \<Rightarrow> request) of
        Inl e \<Rightarrow> w\<lparr>sent := sent w @ [case auth c of Some a \<Rightarrow> SetBasicAuth request (User a) (Password a)
                                    | None \<Rightarrow> request]\<rparr>
      | Inr resp \<Rightarrow> w\<lparr>sent := sent w @ [case auth c of Some a \<Rightarrow> SetBasicAuth request (User a) (Password a)
                                    | None \<Rightarrow> request], closed := closed w + 1\<rparr>)"
  by (cases "httpDo env (case auth c of Some a \<Rightarrow> SetBasicAuth request (User a) (Password a)
                                    | None \<Rightarrow> request)")
     (auto simp: doRequest_def Let_def split: prod.splits)

text \<open>
  C3. When the transport answers and the body is read without error, \<open>doRequest\<close>
  returns the nil error exactly when the status code lies in the inclusive range
  200 to 206. So 206 is a success, and 207, like every code below 200 or above 206,
  is a failure.
\<close>

theorem status_classification:
  assumes "httpDo env (case auth c of Some a \<Rightarrow> SetBasicAuth request (User a) (Password a)
                                    | None \<Rightarrow> request) = Inr resp"
    and "snd (Body resp) = None"
  shows "(snd (fst (doRequest env c request w)) = None)
           = (200 \<le> StatusCode resp \<and> StatusCode resp \<le> 206)"
  unfolding doRequest_response [OF assms] by auto

text \<open>
  C1 (amended). When the transport answers, the body is read without error and the
  status code is outside 200 to 206, \<open>doRequest\<close> returns an error whose message
  contains the status code in decimal and the text of the response body, and the byte
  slice returned alongside that error is nil: the body is handed back only inside
  the message.
\<close>

theorem status_error_result:
  assumes "httpDo env (case auth c of Some a \<Rightarrow> SetBasicAuth request (User a) (Password a)
                                    | None \<Rightarrow> request) = Inr resp"
    and "snd (Body resp) = None"
    and "StatusCode resp < 200 \<or> StatusCode resp > 206"
  shows "\<exists>msg. fst (doRequest env c request w) = (None, Some (Error msg))
           \<and> sublist (fmt_d (StatusCode resp)) msg
           \<and> sublist (string_of (fst (Body resp))) msg"
proof -
  let ?r = "case auth c of Some a \<Rightarrow> SetBasicAuth request (User a) (Password a) | None \<Rightarrow> request"
  let ?msg = "''request ['' @ goSyntax env ?r @ ''] failed ('' @ fmt_d (StatusCode resp)
            @ '') '' @ Status resp @ '': '' @ string_of (fst (Body resp))"
  have 1: "fst (doRequest env c request w) = (None, Some (Error ?msg))"
    using doRequest_response [OF assms(1,2)] assms(3) by (simp add: status_error_def)
  have 2: "sublist (fmt_d (StatusCode resp)) ?msg"
    unfolding sublist_def
    by (rule exI [of _ "''request ['' @ goSyntax env ?r @ ''] failed (''"],
        rule exI [of _ "'') '' @ Status resp @ '': '' @ string_of (fst (Body resp))"]) simp
  have 3: "sublist (string_of (fst (Body resp))) ?msg"
    unfolding sublist_def
    by (rule exI [of _ "''request ['' @ goSyntax env ?r @ ''] failed ('' @ fmt_d (StatusCode resp)
            @ '') '' @ Status resp @ '': ''"], rule exI [of _ "[]"]) simp
  from 1 2 3 show ?thesis by blast
qed


theorem status_classification_witness:
  "snd (fst (doRequest (stub_env (answer 206 ''part'') (None, None) None) client0 request0 world0)) = None
   \<and> snd (fst (doRequest (stub_env (answer 207 ''multi'') (None, None) None) client0 request0 world0)) \<noteq> None
   \<and> snd (fst (doRequest (stub_env (answer 199 ''early'') (None, None) None) client0 request0 world0)) \<noteq> None
   \<and> snd (fst (doRequest (stub_env (answer 200 ''ok'') (None, None) None) client0 request0 world0)) = None"
proof -
  have h: "httpDo (stub_env (answer code content) (None, None) None)
             (case auth client0 of Some a \<Rightarrow> SetBasicAuth request0 (User a) (Password a)
                                 | None \<Rightarrow> request0) = Inr (answer code content)"
    for code content
    by (simp add: stub_env_def)
  have b: "snd (Body (answer code content)) = None" for code content
    by (simp add: answer_def)
  have s: "StatusCode (answer code content) = code" for code content
    by (simp add: answer_def)
  show ?thesis
    using status_classification [OF h b, of 206 "''part''" world0]
      status_classification [OF h b, of 207 "''multi''" world0]
      status_classification [OF h b, of 199 "''early''" world0]
      status_classification [OF h b, of 200 "''ok''" world0]
    unfolding s by simp
qed

theorem status_error_result_witness:
  "fst (doRequest (stub_env not_found (None, None) None) client0 request0 world0)
     = (None, Some (Error
         ''request [http://master/api/v1beta1/pods/foo] failed (404) 404 Not Found: no such pod''))
   \<and> sublist ''404''
         ''request [http://master/api/v1beta1/pods/foo] failed (404) 404 Not Found: no such pod''
   \<and> sublist ''no such pod''
         ''request [http://master/api/v1beta1/pods/foo] failed (404) 404 Not Found: no such pod''"
proof -
  let ?env = "stub_env not_found (None, None) None"
  have h: "httpDo ?env (case auth client0 of Some a \<Rightarrow> SetBasicAuth request0 (User a) (Password a)
                                 | None \<Rightarrow> request0) = Inr not_found"
    by (simp add: stub_env_def)
  have b: "snd (Body not_found) = None"
    by (simp add: not_found_def)
  have c: "StatusCode not_found < 200 \<or> StatusCode not_found > 206"
    by (simp add: not_found_def)
  from status_error_result [OF h b c, of world0]
  obtain msg where m: "fst (doRequest ?env client0 request0 world0) = (None, Some (Error msg))"
    and s1: "sublist (fmt_d (StatusCode not_found)) msg"
    and s2: "sublist (string_of (fst (Body not_found))) msg"
    by blast
  have e: "fst (doRequest ?env client0 request0 world0)
     = (None, Some (Error
         ''request [http://master/api/v1beta1/pods/foo] failed (404) 404 Not Found: no such pod''))"
    by (simp add: doRequest_def stub_env_def client0_def New_def not_found_def request0_def
        StatusOK_def StatusPartialContent_def status_error_def fmt_d_def fmt_nat.simps
        digit_def string_of_def)
  from m e have msg: "msg
      = ''request [http://master/api/v1beta1/pods/foo] failed (404) 404 Not Found: no such pod''"
    by simp
  have d: "fmt_d (StatusCode not_found) = ''404''"
    by (simp add: not_found_def fmt_d_def fmt_nat.simps digit_def)
  have t: "string_of (fst (Body not_found)) = ''no such pod''"
    by (simp add: not_found_def string_of_def)
  from e s1 s2 show ?thesis unfolding msg d t by (intro conjI)
qed

theorem status_error_bytes_counterexample:
  "StatusCode not_found = 404
   \<and> fst (Body not_found) = Some ''no such pod''
   \<and> fst (fst (doRequest (stub_env not_found (None, None) None) client0 request0 world0)) = None
   \<and> fst (fst (doRequest (stub_env not_found (None, None) None) client0 request0 world0))
       \<noteq> fst (Body not_found)"
  by (simp add: doRequest_def stub_env_def client0_def New_def not_found_def request0_def
      StatusOK_def StatusPartialContent_def Let_def)

lemma rawRequest_response:
  assumes n: "newRequestErr env method (makeURL c path) = None"
    and h: "httpDo env (case auth c of
                Some a \<Rightarrow> SetBasicAuth \<lparr>Method = method, URL = makeURL c path,
                                        ReqBody = requestBody, BasicAuth = None\<rparr> (User a) (Password a)
              | None \<Rightarrow> \<lparr>Method = method, URL = makeURL c path,
                          ReqBody = requestBody, BasicAuth = None\<rparr>) = Inr resp"
    and b: "snd (Body resp) = None"
    and s: "200 \<le> StatusCode resp" "StatusCode resp \<le> 206"
  shows "fst (rawRequest env c method path requestBody target w) =
           (fst (Body resp), case target of None \<Rightarrow> None
                             | Some t \<Rightarrow> snd (decodeInto env (fst (Body resp)) t))"
    and "fst (snd (rawRequest env c method path requestBody target w)) =
           (case target of None \<Rightarrow> None
            | Some t \<Rightarrow> Some (fst (decodeInto env (fst (Body resp)) t)))"
proof -
  let ?r = "\<lparr>Method = method, URL = makeURL c path, ReqBody = requestBody, BasicAuth = None\<rparr>"
  have d: "fst (doRequest env c ?r w) = (fst (Body resp), None)"
    using doRequest_response [OF h b, of w] s by simp
  show "fst (rawRequest env c method path requestBody target w) =
           (fst (Body resp), case target of None \<Rightarrow> None
                             | Some t \<Rightarrow> snd (decodeInto env (fst (Body resp)) t))"
    using n d
    by (cases "doRequest env c ?r w")
       (auto simp: rawRequest_def http_NewRequest_def Let_def split: option.splits prod.splits)
  show "fst (snd (rawRequest env c method path requestBody target w)) =
           (case target of None \<Rightarrow> None
            | Some t \<Rightarrow> Some (fst (decodeInto env (fst (Body resp)) t)))"
    using n d
    by (cases "doRequest env c ?r w")
       (auto simp: rawRequest_def http_NewRequest_def Let_def split: option.splits prod.splits)
qed

lemma rawRequest_sent:
  assumes n: "newRequestErr env method (makeURL c path) = None"
  shows "sent (snd (snd (rawRequest env c method path requestBody target w))) =
     sent w @ [\<lparr>Method = method, URL = makeURL c path, ReqBody = requestBody,
                BasicAuth = map_option (\<lambda>a. (User a, Password a)) (auth c)\<rparr>]"
proof -
  let ?r = "\<lparr>Method = method, URL = makeURL c path, ReqBody = requestBody, BasicAuth = None\<rparr>"
  have w: "sent (snd (doRequest env c ?r w)) = sent w @ [\<lparr>Method = method, URL = makeURL c path, ReqBody = requestBody,
                BasicAuth = map_option (\<lambda>a. (User a, Password a)) (auth c)\<rparr>]"
    unfolding doRequest_world
    by (auto simp: SetBasicAuth_def split: sum.splits option.splits)
  show ?thesis
    using n w
    by (cases "doRequest env c ?r w")
       (auto simp: rawRequest_def http_NewRequest_def Let_def split: option.splits prod.splits)
qed

lemma rawRequest_error_nil:
  assumes n: "newRequestErr env method (makeURL c path) = None"
  shows "(snd (fst (rawRequest env c method path requestBody None w)) = None)
       = (snd (fst (doRequest env c \<lparr>Method = method, URL = makeURL c path,
                        ReqBody = requestBody, BasicAuth = None\<rparr> w)) = None)"
  using n
  by (cases "doRequest env c \<lparr>Method = method, URL = makeURL c path,
                        ReqBody = requestBody, BasicAuth = None\<rparr> w")
     (auto simp: rawRequest_def http_NewRequest_def Let_def split: option.splits prod.splits)

lemma doRequest_transport_error:
  assumes "httpDo env (case auth c of Some a \<Rightarrow> SetBasicAuth request (User a) (Password a)
                                    | None \<Rightarrow> request) = Inl e"
  shows "fst (doRequest env c request w) = (Some [], Some e)"
  using assms by (simp add: doRequest_def Let_def)

lemma doRequest_read_error:
  assumes "httpDo env (case auth c of Some a \<Rightarrow> SetBasicAuth request (User a) (Password a)
                                    | None \<Rightarrow> request) = Inr resp"
    and "snd (Body resp) = Some e"
  shows "fst (doRequest env c request w) = (fst (Body resp), Some e)"
  using assms by (cases "Body resp") (simp add: doRequest_def Let_def)

text \<open>
  C8. When the request can be built, the transport answers, the body is read without
  error and the status code lies in 200 to 206, \<open>rawRequest\<close> with a non-nil target
  decodes the raw body into the target and returns the raw body together with the
  error of the decoding: a failed decoding is reported, and the bytes read are still
  returned with it.
\<close>

theorem decode_keeps_raw_bytes:
  assumes "newRequestErr env verb (makeURL c path) = None"
    and "httpDo env (case auth c of
                Some a \<Rightarrow> SetBasicAuth \<lparr>Method = verb, URL = makeURL c path,
                                        ReqBody = requestBody, BasicAuth = None\<rparr> (User a) (Password a)
              | None \<Rightarrow> \<lparr>Method = verb, URL = makeURL c path,
                          ReqBody = requestBody, BasicAuth = None\<rparr>) = Inr resp"
    and "snd (Body resp) = None"
    and "200 \<le> StatusCode resp" "StatusCode resp \<le> 206"
  shows "fst (rawRequest env c verb path requestBody (Some t) w)
           = (fst (Body resp), snd (decodeInto env (fst (Body resp)) t))
    \<and> fst (snd (rawRequest env c verb path requestBody (Some t) w))
           = Some (fst (decodeInto env (fst (Body resp)) t))"
  using rawRequest_response [OF assms, of "Some t" w] by simp

text \<open>
  C5. For each of \<open>CreatePod\<close>, \<open>UpdatePod\<close>, \<open>CreateReplicationController\<close>,
  \<open>UpdateReplicationController\<close>, \<open>CreateService\<close> and \<open>UpdateService\<close>: when
  marshalling the object gives an error, the method returns that error with the zero
  result and leaves the world as it was; no request is sent and nothing is logged.
\<close>

theorem marshal_error_no_request:
  assumes "snd (marshal envP pod) = Some eP"
    and "snd (marshal envR controller) = Some eR"
    and "snd (marshal envS svc) = Some eS"
  shows "CreatePod envP client pod w = ((zero envP, Some eP), w)
    \<and> UpdatePod envP client pod w = ((zero envP, Some eP), w)
    \<and> CreateReplicationController envR client controller w = ((zero envR, Some eR), w)
    \<and> UpdateReplicationController envR client controller w = ((zero envR, Some eR), w)
    \<and> CreateService envS client svc w = ((zero envS, Some eS), w)
    \<and> UpdateService envS client svc w = ((zero envS, Some eS), w)"
proof (intro conjI)
  show "CreatePod envP client pod w = ((zero envP, Some eP), w)"
    using assms(1) by (cases "marshal envP pod") (simp add: CreatePod_def)
  show "UpdatePod envP client pod w = ((zero envP, Some eP), w)"
    using assms(1) by (cases "marshal envP pod") (simp add: UpdatePod_def)
  show "CreateReplicationController envR client controller w = ((zero envR, Some eR), w)"
    using assms(2) by (cases "marshal envR controller") (simp add: CreateReplicationController_def)
  show "UpdateReplicationController envR client controller w = ((zero envR, Some eR), w)"
    using assms(2) by (cases "marshal envR controller") (simp add: UpdateReplicationController_def)
  show "CreateService envS client svc w = ((zero envS, Some eS), w)"
    using assms(3) by (cases "marshal envS svc") (simp add: CreateService_def)
  show "UpdateService envS client svc w = ((zero envS, Some eS), w)"
    using assms(3) by (cases "marshal envS svc") (simp add: UpdateService_def)
qed

text \<open>
  C6. \<open>makeURL\<close> gives the host, then \<open>/api/v1beta1/\<close>, then the path. When
  \<open>http.NewRequest\<close> accepts that URL, \<open>DeletePod\<close> sends exactly one request: method
  DELETE, the URL of the path \<open>pods/\<close> followed by the name, no body, and the
  client's credentials if it has any. It returns an error and no value; the error is
  nil exactly when the transport answers, the body is read without error and the
  status code lies in 200 to 206.
\<close>

theorem DeletePod_request:
  assumes "newRequestErr env ''DELETE'' (host c @ ''/api/v1beta1/'' @ ''pods/'' @ name) = None"
  shows "makeURL c p = host c @ ''/api/v1beta1/'' @ p
    \<and> sent (snd (DeletePod env c name w))
        = sent w @ [\<lparr>Method = ''DELETE'', URL = host c @ ''/api/v1beta1/'' @ ''pods/'' @ name,
                     ReqBody = None,
                     BasicAuth = map_option (\<lambda>a. (User a, Password a)) (auth c)\<rparr>]
    \<and> (fst (DeletePod env c name w) = None)
        = (case httpDo env \<lparr>Method = ''DELETE'',
                             URL = host c @ ''/api/v1beta1/'' @ ''pods/'' @ name, ReqBody = None,
                             BasicAuth = map_option (\<lambda>a. (User a, Password a)) (auth c)\<rparr> of
             Inl e \<Rightarrow> False
           | Inr resp \<Rightarrow> snd (Body resp) = None
                          \<and> 200 \<le> StatusCode resp \<and> StatusCode resp \<le> 206)"
proof (intro conjI)
  have n: "newRequestErr env ''DELETE'' (makeURL c (''pods/'' @ name)) = None"
    using assms by (simp add: makeURL_def)
  show "makeURL c p = host c @ ''/api/v1beta1/'' @ p"
    by (simp add: makeURL_def)
  have "sent (snd (DeletePod env c name w))
      = sent (snd (snd (rawRequest env c ''DELETE'' (''pods/'' @ name) None None w)))"
    by (simp add: DeletePod_def split: prod.splits)
  then show "sent (snd (DeletePod env c name w))
        = sent w @ [\<lparr>Method = ''DELETE'', URL = host c @ ''/api/v1beta1/'' @ ''pods/'' @ name,
                     ReqBody = None,
                     BasicAuth = map_option (\<lambda>a. (User a, Password a)) (auth c)\<rparr>]"
    unfolding rawRequest_sent [OF n] by (simp add: makeURL_def)
  let ?r = "\<lparr>Method = ''DELETE'', URL = makeURL c (''pods/'' @ name), ReqBody = None, BasicAuth = None\<rparr>"
  let ?a = "\<lparr>Method = ''DELETE'', URL = host c @ ''/api/v1beta1/'' @ ''pods/'' @ name, ReqBody = None,
                             BasicAuth = map_option (\<lambda>a. (User a, Password a)) (auth c)\<rparr>"
  have a: "(case auth c of Some a \<Rightarrow> SetBasicAuth ?r (User a) (Password a) | None \<Rightarrow> ?r) = ?a"
    by (simp add: SetBasicAuth_def makeURL_def split: option.splits)
  have "fst (DeletePod env c name w)
      = snd (fst (rawRequest env c ''DELETE'' (''pods/'' @ name) None None w))"
    by (simp add: DeletePod_def split: prod.splits)
  then have e: "(fst (DeletePod env c name w) = None) = (snd (fst (doRequest env c ?r w)) = None)"
    using rawRequest_error_nil [OF n, of None w] by simp
  show "(fst (DeletePod env c name w) = None)
        = (case httpDo env ?a of
             Inl e \<Rightarrow> False
           | Inr resp \<Rightarrow> snd (Body resp) = None
                          \<and> 200 \<le> StatusCode resp \<and> StatusCode resp \<le> 206)"
  proof (cases "httpDo env ?a")
    case (Inl err)
    have h: "httpDo env (case auth c of Some a \<Rightarrow> SetBasicAuth ?r (User a) (Password a)
                                | None \<Rightarrow> ?r) = Inl err"
      unfolding a by (rule Inl)
    show ?thesis
      unfolding e doRequest_transport_error [OF h] Inl by simp
  next
    case (Inr resp)
    have h: "httpDo env (case auth c of Some a \<Rightarrow> SetBasicAuth ?r (User a) (Password a)
                                | None \<Rightarrow> ?r) = Inr resp"
      unfolding a by (rule Inr)
    show ?thesis
    proof (cases "snd (Body resp)")
      case None
      show ?thesis
        unfolding e doRequest_response [OF h None] Inr by (simp add: None)
    next
      case (Some rerr)
      show ?thesis
        unfolding e doRequest_read_error [OF h Some] Inr by (simp add: Some)
    qed
  qed
qed

lemma ranges_len:
  assumes "ranges kvs selector"
  shows "(selector \<noteq> None \<and> len selector > 0) = (\<not> (selector = None \<or> selector = Some Map.empty))"
proof (cases selector)
  case None
  then show ?thesis by simp
next
  case (Some m)
  with assms have "dom m = fst ` set kvs"
    by (simp add: ranges_def entries_def dom_map_of_conv_image_fst [symmetric])
  then have "finite (dom m)" by simp
  then have "(card (dom m) > 0) = (m \<noteq> Map.empty)"
    by (simp add: card_gt_0_iff)
  with Some show ?thesis by (simp add: len_def)
qed

text \<open>
  C7. For a selector and an order in which the runtime ranges over it, when
  \<open>http.NewRequest\<close> accepts the URL, \<open>ListPods\<close> sends exactly one GET request:
  to the path \<open>pods\<close> when the selector is nil or empty, and to \<open>pods?labels=\<close>
  followed by \<open>EncodeSelector\<close> of the selector otherwise. Nothing but the selector
  enters the path.
\<close>

theorem ListPods_request:
  assumes "ranges (rng selector) selector"
    and "newRequestErr env ''GET''
           (makeURL c (if selector = None \<or> selector = Some Map.empty then ''pods''
                       else ''pods?labels='' @ EncodeSelector rng selector)) = None"
  shows "sent (snd (ListPods env rng c selector w))
        = sent w @ [\<lparr>Method = ''GET'',
                     URL = makeURL c (if selector = None \<or> selector = Some Map.empty then ''pods''
                                      else ''pods?labels='' @ EncodeSelector rng selector),
                     ReqBody = None,
                     BasicAuth = map_option (\<lambda>a. (User a, Password a)) (auth c)\<rparr>]"
proof -
  let ?path = "if selector = None \<or> selector = Some Map.empty then ''pods''
               else ''pods?labels='' @ EncodeSelector rng selector"
  have p: "(if selector \<noteq> None \<and> len selector > 0
            then ''pods'' @ ''?labels='' @ EncodeSelector rng selector else ''pods'') = ?path"
    unfolding ranges_len [OF assms(1)] by simp
  have "sent (snd (ListPods env rng c selector w))
      = sent (snd (snd (rawRequest env c ''GET'' ?path None (Some (zero env)) w)))"
    unfolding ListPods_def Let_def p by (simp split: prod.splits)
  then show ?thesis
    unfolding rawRequest_sent [OF assms(2)] .
qed

theorem ListPods_request_witness:
  "ranges (fixed_order [(''a'', ''1'')] (Some [''a'' \<mapsto> ''1''])) (Some [''a'' \<mapsto> ''1''])
   \<and> sent (snd (ListPods (stub_env (answer 200 ''{}'') (None, None) None)
                  (fixed_order [(''a'', ''1'')]) client0 (Some [''a'' \<mapsto> ''1'']) world0))
       = [\<lparr>Method = ''GET'', URL = ''http://master/api/v1beta1/pods?labels=a%3D1'',
           ReqBody = None, BasicAuth = None\<rparr>]
   \<and> sent (snd (ListPods (stub_env (answer 200 ''{}'') (None, None) None)
                  (fixed_order []) client0 None world0))
       = [\<lparr>Method = ''GET'', URL = ''http://master/api/v1beta1/pods'',
           ReqBody = None, BasicAuth = None\<rparr>]
   \<and> sent (snd (ListPods (stub_env (answer 200 ''{}'') (None, None) None)
                  (fixed_order []) client0 (Some Map.empty) world0))
       = [\<lparr>Method = ''GET'', URL = ''http://master/api/v1beta1/pods'',
           ReqBody = None, BasicAuth = None\<rparr>]"
proof -
  let ?env = "stub_env (answer 200 ''{}'') (None, None) None"
  have n: "newRequestErr ?env m u = None" for m u
    by (simp add: stub_env_def)
  have r1: "ranges (fixed_order [(''a'', ''1'')] (Some [''a'' \<mapsto> ''1''])) (Some [''a'' \<mapsto> ''1''])"
    by (simp add: ranges_def fixed_order_def entries_def)
  have r2: "ranges (fixed_order [] None) None"
    by (simp add: ranges_def fixed_order_def entries_def)
  have r3: "ranges (fixed_order [] (Some Map.empty)) (Some Map.empty)"
    by (simp add: ranges_def fixed_order_def entries_def)
  have e: "EncodeSelector (fixed_order [(''a'', ''1'')]) (Some [''a'' \<mapsto> ''1'']) = ''a%3D1''"
    by (simp add: EncodeSelector_def EncodeSelector_parts_def fixed_order_def
        shouldEscape_def upperhex_def)
  have ne: "Some [''a'' \<mapsto> ''1''] \<noteq> Some Map.empty"
    by simp
  have a: "sent (snd (ListPods ?env (fixed_order [(''a'', ''1'')]) client0 (Some [''a'' \<mapsto> ''1'']) world0))
       = [\<lparr>Method = ''GET'', URL = ''http://master/api/v1beta1/pods?labels=a%3D1'',
           ReqBody = None, BasicAuth = None\<rparr>]"
    using ListPods_request [of "fixed_order [(''a'', ''1'')]" "Some [''a'' \<mapsto> ''1'']" ?env client0 world0,
        OF r1 n] ne
    unfolding e by (simp add: makeURL_def client0_def New_def world0_def)
  have b: "sent (snd (ListPods ?env (fixed_order []) client0 None world0))
       = [\<lparr>Method = ''GET'', URL = ''http://master/api/v1beta1/pods'',
           ReqBody = None, BasicAuth = None\<rparr>]"
    using ListPods_request [of "fixed_order []" None ?env client0 world0, OF r2 n]
    by (simp add: makeURL_def client0_def New_def world0_def)
  have c: "sent (snd (ListPods ?env (fixed_order []) client0 (Some Map.empty) world0))
       = [\<lparr>Method = ''GET'', URL = ''http://master/api/v1beta1/pods'',
           ReqBody = None, BasicAuth = None\<rparr>]"
    using ListPods_request [of "fixed_order []" "Some Map.empty" ?env client0 world0, OF r3 n]
    by (simp add: makeURL_def client0_def New_def world0_def)
  from r1 a b c show ?thesis by (intro conjI)
qed

theorem marshal_error_no_request_witness:
  "CreatePod (stub_env (answer 200 ''{}'') (None, Some (Error ''json: unsupported type'')) None)
      client0 ''pod1'' world0 = (([], Some (Error ''json: unsupported type'')), world0)
   \<and> UpdatePod (stub_env (answer 200 ''{}'') (None, Some (Error ''json: unsupported type'')) None)
      client0 ''pod1'' world0 = (([], Some (Error ''json: unsupported type'')), world0)
   \<and> CreateReplicationController
        (stub_env (answer 200 ''{}'') (None, Some (Error ''json: unsupported type'')) None)
      client0 ''rc1'' world0 = (([], Some (Error ''json: unsupported type'')), world0)
   \<and> UpdateReplicationController
        (stub_env (answer 200 ''{}'') (None, Some (Error ''json: unsupported type'')) None)
      client0 ''rc1'' world0 = (([], Some (Error ''json: unsupported type'')), world0)
   \<and> CreateService (stub_env (answer 200 ''{}'') (None, Some (Error ''json: unsupported type'')) None)
      client0 ''svc1'' world0 = (([], Some (Error ''json: unsupported type'')), world0)
   \<and> UpdateService (stub_env (answer 200 ''{}'') (None, Some (Error ''json: unsupported type'')) None)
      client0 ''svc1'' world0 = (([], Some (Error ''json: unsupported type'')), world0)
   \<and> sent world0 = []"
proof -
  let ?env = "stub_env (answer 200 ''{}'') (None, Some (Error ''json: unsupported type'')) None"
  have m: "snd (marshal ?env obj) = Some (Error ''json: unsupported type'')" for obj
    by (simp add: stub_env_def)
  have z: "zero ?env = []"
    by (simp add: stub_env_def)
  have s: "sent world0 = []"
    by (simp add: world0_def)
  show ?thesis
    using marshal_error_no_request [where envP = ?env and envR = ?env and envS = ?env
        and pod = "''pod1''" and controller = "''rc1''" and svc = "''svc1''"
        and client = client0 and w = world0, OF m m m] s
    unfolding z by blast
qed

theorem DeletePod_request_witness:
  "makeURL client0 ''pods/foo'' = ''http://master/api/v1beta1/pods/foo''
   \<and> sent (snd (DeletePod (stub_env (answer 200 ''{}'') (None, None) None) client0 ''foo'' world0))
       = [\<lparr>Method = ''DELETE'', URL = ''http://master/api/v1beta1/pods/foo'',
           ReqBody = None, BasicAuth = None\<rparr>]
   \<and> fst (DeletePod (stub_env (answer 200 ''{}'') (None, None) None) client0 ''foo'' world0) = None
   \<and> fst (DeletePod (stub_env not_found (None, None) None) client0 ''foo'' world0) \<noteq> None"
proof -
  have n: "newRequestErr (stub_env r (None, None) None) m u = None" for r m u
    by (simp add: stub_env_def)
  have h: "httpDo (stub_env r (None, None) None) q = Inr r" for r q
    by (simp add: stub_env_def)
  show ?thesis
    using DeletePod_request [where env = "stub_env (answer 200 ''{}'') (None, None) None"
        and c = client0 and name = "''foo''" and p = "''pods/foo''" and w = world0, OF n]
      DeletePod_request [where env = "stub_env not_found (None, None) None"
        and c = client0 and name = "''foo''" and p = "''pods/foo''" and w = world0, OF n]
    unfolding h
    by (simp add: client0_def New_def world0_def answer_def not_found_def)
qed

theorem decode_keeps_raw_bytes_witness:
  "fst (rawRequest (stub_env (answer 200 ''{not json'') (None, None) (Some (Error ''unexpected end'')))
          client0 ''GET'' ''pods/foo'' None (Some []) world0)
     = (Some ''{not json'', Some (Error ''unexpected end''))
   \<and> fst (rawRequest (stub_env (answer 200 ''{}'') (None, None) None)
          client0 ''GET'' ''pods/foo'' None (Some []) world0)
     = (Some ''{}'', None)
   \<and> fst (snd (rawRequest (stub_env (answer 200 ''{}'') (None, None) None)
          client0 ''GET'' ''pods/foo'' None (Some []) world0))
     = Some ''{}''"
proof -
  have n: "newRequestErr (stub_env r (None, None) d) m u = None" for r m u d
    by (simp add: stub_env_def)
  have h: "httpDo (stub_env r (None, None) d) q = Inr r" for r q d
    by (simp add: stub_env_def)
  have b: "snd (Body (answer code content)) = None" for code content
    by (simp add: answer_def)
  have s: "200 \<le> StatusCode (answer 200 content)" "StatusCode (answer 200 content) \<le> 206"
    for content
    by (simp_all add: answer_def)
  show ?thesis
    using decode_keeps_raw_bytes [where c = client0 and verb = "''GET''" and path = "''pods/foo''"
        and env = "stub_env (answer 200 ''{not json'') (None, None) (Some (Error ''unexpected end''))"
        and requestBody = None and resp = "answer 200 ''{not json''" and t = "[]" and w = world0,
        OF n h b s]
      decode_keeps_raw_bytes [where c = client0 and verb = "''GET''" and path = "''pods/foo''"
        and env = "stub_env (answer 200 ''{}'') (None, None) None"
        and requestBody = None and resp = "answer 200 ''{}''" and t = "[]" and w = world0,
        OF n h b s]
    by (simp add: stub_env_def answer_def string_of_def)
qed

end
